theory Spec2Isabelle
  imports Complex_Main
begin

section \<open>Text primitives of the Python runtime\<close>

text \<open>
  The function under study is \<^verbatim>\<open>create_charge_file\<close> of \<^verbatim>\<open>resp2/resp2.py\<close>.  A Python
  \<^verbatim>\<open>str\<close> is modelled as a HOL string whose characters are the code points below 256.
  A text file is modelled by the list of lines that \<^verbatim>\<open>readlines()\<close> returns for it, and a
  written file by the list of strings handed to \<^verbatim>\<open>write\<close>, in order.
\<close>

definition LF :: char where
  "LF = CHR 0x0A"

definition SP :: char where
  "SP = CHR 0x20"

definition whitespace :: "char list" where
  "whitespace = [CHR 0x09, CHR 0x0A, CHR 0x0B, CHR 0x0C, CHR 0x0D, CHR 0x1C, CHR 0x1D,
                 CHR 0x1E, CHR 0x1F, CHR 0x20, CHR 0x85, CHR 0xA0]"

definition is_space :: "char \<Rightarrow> bool" where
  "is_space c = (c \<in> set whitespace)"

text \<open>\<^verbatim>\<open>line.split()\<close>: the maximal runs of non-whitespace characters, in order.
  The first argument is the token under construction, reversed.\<close>

fun split_ws :: "string \<Rightarrow> string \<Rightarrow> string list" where
  "split_ws cur [] = (if cur = [] then [] else [rev cur])"
| "split_ws cur (c # cs) =
     (if is_space c then (if cur = [] then split_ws [] cs else rev cur # split_ws [] cs)
      else split_ws (c # cur) cs)"

definition py_split :: "string \<Rightarrow> string list" where
  "py_split s = split_ws [] s"

text \<open>\<^verbatim>\<open>s.startswith(p)\<close> and \<^verbatim>\<open>p in s\<close>.\<close>

fun startswith :: "string \<Rightarrow> string \<Rightarrow> bool" where
  "startswith s [] = True"
| "startswith [] (p # ps) = False"
| "startswith (c # cs) (p # ps) = (c = p \<and> startswith cs ps)"

fun contains :: "string \<Rightarrow> string \<Rightarrow> bool" where
  "contains p [] = (p = [])"
| "contains p (c # cs) = (startswith (c # cs) p \<or> contains p cs)"

text \<open>The format specifications \<^verbatim>\<open>{:>w}\<close> and \<^verbatim>\<open>{:<w}\<close> on a string: padding with
  spaces up to the width, never truncating.\<close>

definition rjust :: "nat \<Rightarrow> string \<Rightarrow> string" where
  "rjust w s = replicate (w - length s) SP @ s"

definition ljust :: "nat \<Rightarrow> string \<Rightarrow> string" where
  "ljust w s = s @ replicate (w - length s) SP"

text \<open>Decimal digits of a natural number, and \<^verbatim>\<open>str\<close> of a Python integer.\<close>

definition digit_char :: "int \<Rightarrow> char" where
  "digit_char d = ''0123456789'' ! nat (d mod 10)"

function digits :: "int \<Rightarrow> string" where
  "digits n = (if n < 10 then [digit_char n] else digits (n div 10) @ [digit_char (n mod 10)])"
  by pat_completeness auto
termination
  by (relation "measure nat") auto

declare digits.simps [simp del]

definition str_int :: "int \<Rightarrow> string" where
  "str_int i = (if i < 0 then CHR ''-'' # digits (- i) else digits i)"

section \<open>Python floats\<close>

text \<open>
  A Python float is an IEEE 754 binary64 value.  A finite non-zero value and positive zero
  are \<open>Fin r\<close> with \<open>r\<close> the exact rational value; the other values are negative zero, the
  two infinities and NaN.  Every operation computes the exact rational result and rounds it
  to the nearest representable value, ties to even, as the hardware does.
\<close>

datatype pyfloat = Fin rat | NegZero | PosInf | NegInf | NaN

definition pow2 :: "int \<Rightarrow> rat" where
  "pow2 e = (if 0 \<le> e then 2 ^ nat e else 1 / 2 ^ nat (- e))"

function bitlen :: "int \<Rightarrow> int" where
  "bitlen n = (if n \<le> 0 then 0 else 1 + bitlen (n div 2))"
  by pat_completeness auto
termination
  by (relation "measure nat") auto

declare bitlen.simps [simp del]

text \<open>\<open>ilog2 a\<close> is the integer \<open>e\<close> with \<open>2^e \<le> a < 2^(e+1)\<close>, for positive \<open>a\<close>.\<close>

definition ilog2 :: "rat \<Rightarrow> int" where
  "ilog2 a = (let (n, d) = quotient_of a;
                  e0 = bitlen n - bitlen d
              in if pow2 e0 \<le> a then e0 else e0 - 1)"

definition round_half_even :: "rat \<Rightarrow> int" where
  "round_half_even r = (let f = \<lfloor>r\<rfloor>; d = r - of_int f
                        in if d < 1 / 2 then f
                           else if 1 / 2 < d then f + 1
                           else if even f then f else f + 1)"

text \<open>
  Rounding an exact result to binary64.  The unit in the last place is \<open>2^q\<close> with
  \<open>q = e - 52\<close> for a normal magnitude in \<open>[2^e, 2^(e+1))\<close> and \<open>q = -1074\<close> for a
  subnormal one.  The rounded magnitude \<open>m * 2^q\<close> exceeds the largest finite value exactly
  when it reaches \<open>2^1024\<close>, that is when \<open>q > 971\<close>, or \<open>q = 971\<close> and \<open>m = 2^53\<close>.
\<close>

definition round_double :: "rat \<Rightarrow> pyfloat" where
  "round_double x =
     (if x = 0 then Fin 0
      else let a = \<bar>x\<bar>;
               q = max (ilog2 a - 52) (- 1074);
               m = round_half_even (a / pow2 q)
           in if 971 < q \<or> (q = 971 \<and> 9007199254740992 \<le> m)
              then (if x < 0 then NegInf else PosInf)
              else if m = 0 then (if x < 0 then NegZero else Fin 0)
              else Fin (if x < 0 then - (of_int m * pow2 q) else of_int m * pow2 q))"

definition is_nan :: "pyfloat \<Rightarrow> bool" where
  "is_nan x = (x = NaN)"

definition is_inf :: "pyfloat \<Rightarrow> bool" where
  "is_inf x = (x = PosInf \<or> x = NegInf)"

fun fval :: "pyfloat \<Rightarrow> rat" where
  "fval (Fin r) = r"
| "fval _ = 0"

fun fneg_sign :: "pyfloat \<Rightarrow> bool" where
  "fneg_sign (Fin r) = (r < 0)"
| "fneg_sign NegZero = True"
| "fneg_sign NegInf = True"
| "fneg_sign _ = False"

definition signed_zero :: "bool \<Rightarrow> pyfloat" where
  "signed_zero neg = (if neg then NegZero else Fin 0)"

definition signed_inf :: "bool \<Rightarrow> pyfloat" where
  "signed_inf neg = (if neg then NegInf else PosInf)"

text \<open>\<^verbatim>\<open>x * y\<close>, \<^verbatim>\<open>x + y\<close>, \<^verbatim>\<open>-x\<close> and \<^verbatim>\<open>x - y\<close> on floats.\<close>

definition fmul :: "pyfloat \<Rightarrow> pyfloat \<Rightarrow> pyfloat" where
  "fmul x y =
     (if is_nan x \<or> is_nan y then NaN
      else if is_inf x \<or> is_inf y then
        (if (\<not> is_inf x \<and> fval x = 0) \<or> (\<not> is_inf y \<and> fval y = 0) then NaN
         else signed_inf (fneg_sign x \<noteq> fneg_sign y))
      else if fval x * fval y = 0 then signed_zero (fneg_sign x \<noteq> fneg_sign y)
      else round_double (fval x * fval y))"

definition fadd :: "pyfloat \<Rightarrow> pyfloat \<Rightarrow> pyfloat" where
  "fadd x y =
     (if is_nan x \<or> is_nan y then NaN
      else if is_inf x then (if is_inf y \<and> x \<noteq> y then NaN else x)
      else if is_inf y then y
      else if fval x + fval y = 0 then signed_zero (fneg_sign x \<and> fneg_sign y)
      else round_double (fval x + fval y))"

fun fneg :: "pyfloat \<Rightarrow> pyfloat" where
  "fneg (Fin r) = (if r = 0 then NegZero else Fin (- r))"
| "fneg NegZero = Fin 0"
| "fneg PosInf = NegInf"
| "fneg NegInf = PosInf"
| "fneg NaN = NaN"

definition fsub :: "pyfloat \<Rightarrow> pyfloat \<Rightarrow> pyfloat" where
  "fsub x y = fadd x (fneg y)"

text \<open>
  \<^verbatim>\<open>float(token)\<close> on a token produced by \<^verbatim>\<open>split()\<close> (which holds no whitespace, so the
  stripping that \<^verbatim>\<open>float\<close> performs leaves it unchanged).  The accepted syntax is an optional
  sign followed by \<^verbatim>\<open>inf\<close>, \<^verbatim>\<open>infinity\<close> or \<^verbatim>\<open>nan\<close> in any letter case, or by a decimal number
  with an optional fraction and exponent, where single underscores may separate digits.
  The result is the exact decimal value correctly rounded; \<open>None\<close> stands for ValueError.
\<close>

definition is_digit :: "char \<Rightarrow> bool" where
  "is_digit c = (c \<in> set ''0123456789'')"

definition digit_val :: "char \<Rightarrow> int" where
  "digit_val c = of_char c - 48"

fun digits_val :: "int \<Rightarrow> string \<Rightarrow> int" where
  "digits_val acc [] = acc"
| "digits_val acc (c # cs) = digits_val (acc * 10 + digit_val c) cs"

fun dp_ok :: "bool \<Rightarrow> string \<Rightarrow> bool" where
  "dp_ok prev [] = prev"
| "dp_ok prev (c # cs) =
     (if is_digit c then dp_ok True cs
      else if c = CHR ''_'' \<and> prev then dp_ok False cs
      else False)"

definition valid_digitpart :: "string \<Rightarrow> bool" where
  "valid_digitpart s = dp_ok False s"

definition lower :: "char \<Rightarrow> char" where
  "lower c = (let n = (of_char c :: nat) in if 65 \<le> n \<and> n \<le> 90 then char_of (n + 32) else c)"

fun break_at :: "(char \<Rightarrow> bool) \<Rightarrow> string \<Rightarrow> string \<times> string option" where
  "break_at P [] = ([], None)"
| "break_at P (c # cs) =
     (if P c then ([], Some cs) else (case break_at P cs of (a, b) \<Rightarrow> (c # a, b)))"

definition strip_sign :: "string \<Rightarrow> bool \<times> string" where
  "strip_sign s = (if s \<noteq> [] \<and> hd s = CHR ''-'' then (True, tl s)
                   else if s \<noteq> [] \<and> hd s = CHR ''+'' then (False, tl s)
                   else (False, s))"

definition pow10 :: "int \<Rightarrow> rat" where
  "pow10 k = (if 0 \<le> k then 10 ^ nat k else 1 / 10 ^ nat (- k))"

definition parse_exponent :: "string option \<Rightarrow> int option" where
  "parse_exponent ex =
     (case ex of
        None \<Rightarrow> Some 0
      | Some e \<Rightarrow> (case strip_sign e of (eneg, ed) \<Rightarrow>
          if valid_digitpart ed
          then Some (if eneg then - digits_val 0 (filter is_digit ed)
                     else digits_val 0 (filter is_digit ed))
          else None))"

definition float_of_string :: "string \<Rightarrow> pyfloat option" where
  "float_of_string s =
     (case strip_sign s of (neg, body) \<Rightarrow>
        if map lower body = ''inf'' \<or> map lower body = ''infinity'' then Some (signed_inf neg)
        else if map lower body = ''nan'' then Some NaN
        else (case break_at (\<lambda>c. c = CHR ''e'' \<or> c = CHR ''E'') body of (mant, ex) \<Rightarrow>
          (case break_at (\<lambda>c. c = CHR ''.'') mant of (ip, fp) \<Rightarrow>
             if (case fp of
                   None \<Rightarrow> valid_digitpart ip
                 | Some f \<Rightarrow> (ip = [] \<or> valid_digitpart ip) \<and> (f = [] \<or> valid_digitpart f)
                              \<and> (ip \<noteq> [] \<or> f \<noteq> []))
             then (case parse_exponent ex of
                     None \<Rightarrow> None
                   | Some e \<Rightarrow>
                       let fd = filter is_digit (case fp of None \<Rightarrow> [] | Some f \<Rightarrow> f);
                           n = digits_val 0 (filter is_digit ip @ fd)
                       in if n = 0 then Some (signed_zero neg)
                          else Some (round_double
                                 ((if neg then - of_int n else of_int n)
                                  * pow10 (e - int (length fd)))))
             else None)))"

text \<open>The format specification \<^verbatim>\<open>.4f\<close>: the exact value rounded to four decimals, ties to
  even, with the sign of the float (so a negative value that rounds to zero keeps its
  minus sign).\<close>

definition frac4 :: "int \<Rightarrow> string" where
  "frac4 k = [digit_char (k div 1000), digit_char (k div 100), digit_char (k div 10), digit_char k]"

fun fmt_4f :: "pyfloat \<Rightarrow> string" where
  "fmt_4f (Fin r) =
     (let n = round_half_even (\<bar>r\<bar> * 10000)
      in (if r < 0 then ''-'' else []) @ digits (n div 10000) @ ''.'' @ frac4 (n mod 10000))"
| "fmt_4f NegZero = ''-0.0000''"
| "fmt_4f PosInf = ''inf''"
| "fmt_4f NegInf = ''-inf''"
| "fmt_4f NaN = ''nan''"

section \<open>Errors and indexing\<close>

text \<open>The exceptions that \<^verbatim>\<open>create_charge_file\<close> can raise.  \<open>LengthMismatchError\<close> is the
  error named by the specification for charge sequences of different lengths.\<close>

datatype error =
    IndexError | ValueError | OverflowError | FileNotFoundError | OSError | SystemExit
  | LengthMismatchError

definition item :: "'a list \<Rightarrow> nat \<Rightarrow> error + 'a" where
  "item xs i = (if i < length xs then Inr (xs ! i) else Inl IndexError)"

text \<open>\<^verbatim>\<open>int(x)\<close> on a float: truncation towards zero.\<close>

fun int_of_float :: "pyfloat \<Rightarrow> error + int" where
  "int_of_float (Fin r) = Inr (if 0 \<le> r then \<lfloor>r\<rfloor> else - \<lfloor>- r\<rfloor>)"
| "int_of_float NegZero = Inr 0"
| "int_of_float PosInf = Inl OverflowError"
| "int_of_float NegInf = Inl OverflowError"
| "int_of_float NaN = Inl ValueError"

section \<open>The charge-file generator\<close>

definition ATOM_MARKER :: string where
  "ATOM_MARKER = ''@<TRIPOS>ATOM''"

definition BOND_MARKER :: string where
  "BOND_MARKER = ''@<TRIPOS>BOND''"

text \<open>
  The loop that reads the charges.  The source has three copies of it (for the RESP1 file,
  the gas-phase file and the implicit-solvent file) that differ in the names of their
  variables only:
  \<^verbatim>\<open>
  v = 0
  for line in lines:
      if '@<TRIPOS>ATOM' in line:   v = 1
      elif '@<TRIPOS>BOND' in line: v = 2
      elif v == 1:
          entry = line.split()
          charges.append(float(entry[8]))
  \<close>
  \<open>read_charges v lines\<close> runs the loop from mode \<open>v\<close>.
\<close>

fun read_charges :: "nat \<Rightarrow> string list \<Rightarrow> error + pyfloat list" where
  "read_charges v [] = Inr []"
| "read_charges v (line # rest) =
     (if contains ATOM_MARKER line then read_charges 1 rest
      else if contains BOND_MARKER line then read_charges 2 rest
      else if v = 1 then
        (case item (py_split line) 8 of
           Inl e \<Rightarrow> Inl e
         | Inr tok \<Rightarrow>
            (case float_of_string tok of
               None \<Rightarrow> Inl ValueError
             | Some c \<Rightarrow>
                (case read_charges v rest of
                   Inl e \<Rightarrow> Inl e
                 | Inr cs \<Rightarrow> Inr (c # cs))))
      else read_charges v rest)"

text \<open>
  RESP1 scaling:
  \<^verbatim>\<open>for i in range(len(resp1charges)): charges.append(resp1charges[i] * delta)\<close>
\<close>

definition resp1_charges :: "pyfloat list \<Rightarrow> pyfloat \<Rightarrow> pyfloat list" where
  "resp1_charges resp1charges delta =
     map (\<lambda>i. fmul (resp1charges ! i) delta) [0..<length resp1charges]"

text \<open>
  RESP2 mixing:
  \<^verbatim>\<open>for i in range(len(isc)): charges.append(gpc[i] * (1.0 - delta) + isc[i] * delta)\<close>
  The index runs over the implicit-solvent charges, so \<^verbatim>\<open>gpc[i]\<close> can be out of range.
\<close>

fun mix_loop :: "pyfloat list \<Rightarrow> pyfloat list \<Rightarrow> pyfloat \<Rightarrow> nat list \<Rightarrow> error + pyfloat list" where
  "mix_loop gpc isc delta [] = Inr []"
| "mix_loop gpc isc delta (i # is) =
     (case item gpc i of
        Inl e \<Rightarrow> Inl e
      | Inr g \<Rightarrow>
         (case mix_loop gpc isc delta is of
            Inl e \<Rightarrow> Inl e
          | Inr cs \<Rightarrow> Inr (fadd (fmul g (fsub (Fin 1) delta)) (fmul (isc ! i) delta) # cs)))"

definition resp2_charges :: "pyfloat list \<Rightarrow> pyfloat list \<Rightarrow> pyfloat \<Rightarrow> error + pyfloat list" where
  "resp2_charges gpc isc delta = mix_loop gpc isc delta [0..<length isc]"

text \<open>
  The replacement of the title line:
  \<^verbatim>\<open>
  if lines[1].startswith('***') or lines[1].startswith('resp_gas') or lines[1].startswith('mol1_conf1'):
      lines[1] = '{}\n'.format(resname)
  \<close>
\<close>

definition is_placeholder :: "string \<Rightarrow> bool" where
  "is_placeholder l =
     (startswith l ''***'' \<or> startswith l ''resp_gas'' \<or> startswith l ''mol1_conf1'')"

definition subst_title :: "string list \<Rightarrow> string \<Rightarrow> error + string list" where
  "subst_title lines resname =
     (case item lines 1 of
        Inl e \<Rightarrow> Inl e
      | Inr l \<Rightarrow> if is_placeholder l then Inr (lines[1 := resname @ [LF]]) else Inr lines)"

text \<open>
  One rewritten atom line:
  \<^verbatim>\<open>
  "{:>7} {:<3}{:>15}{:>10}{:>10} {:<3}{:>8}{:>5}{:>14.4f} \n".format(
      entry[0], entry[1], entry[2], entry[3], entry[4], entry[5], entry[6], resname, charges[num])
  \<close>
\<close>

definition atom_line :: "string list \<Rightarrow> string \<Rightarrow> pyfloat \<Rightarrow> string" where
  "atom_line entry resname charge =
     rjust 7 (entry ! 0) @ [SP] @ ljust 3 (entry ! 1) @ rjust 15 (entry ! 2)
     @ rjust 10 (entry ! 3) @ rjust 10 (entry ! 4) @ [SP] @ ljust 3 (entry ! 5)
     @ rjust 8 (entry ! 6) @ rjust 5 resname @ rjust 14 (fmt_4f charge) @ [SP, LF]"

definition format_atom :: "string list \<Rightarrow> string \<Rightarrow> pyfloat list \<Rightarrow> nat \<Rightarrow> error + string" where
  "format_atom entry resname charges num =
     (if length entry < 7 then Inl IndexError
      else case item charges num of
             Inl e \<Rightarrow> Inl e
           | Inr c \<Rightarrow> Inr (atom_line entry resname c))"

text \<open>
  The loop that writes the output:
  \<^verbatim>\<open>
  v = 0; num = 0
  for i, line in enumerate(lines):
      if '@<TRIPOS>ATOM' in line:   v = 1; output.write(line)
      elif '@<TRIPOS>BOND' in line: v = 2; output.write(line)
      elif v == 1:
          entry = line.split()
          output.write(<the atom line>)
          num += 1
      else: output.write(line)
  \<close>
  The result is the list of strings written, and the exception that stopped the loop, if
  any.
\<close>

definition emit :: "string \<Rightarrow> string list \<times> error option \<Rightarrow> string list \<times> error option" where
  "emit s r = (s # fst r, snd r)"

fun write_lines :: "nat \<Rightarrow> nat \<Rightarrow> string \<Rightarrow> pyfloat list \<Rightarrow> string list
                    \<Rightarrow> string list \<times> error option" where
  "write_lines v num resname charges [] = ([], None)"
| "write_lines v num resname charges (line # rest) =
     (if contains ATOM_MARKER line then emit line (write_lines 1 num resname charges rest)
      else if contains BOND_MARKER line then emit line (write_lines 2 num resname charges rest)
      else if v = 1 then
        (case format_atom (py_split line) resname charges num of
           Inl e \<Rightarrow> ([], Some e)
         | Inr s \<Rightarrow> emit s (write_lines v (num + 1) resname charges rest))
      else emit line (write_lines v num resname charges rest))"

text \<open>The part of \<^verbatim>\<open>create_charge_file\<close> after the charges are computed: the title
  replacement and the writing loop.\<close>

definition rewrite :: "string list \<Rightarrow> string \<Rightarrow> pyfloat list \<Rightarrow> string list \<times> error option" where
  "rewrite lines resname charges =
     (case subst_title lines resname of
        Inl e \<Rightarrow> ([], Some e)
      | Inr lines' \<Rightarrow> write_lines 0 0 resname charges lines')"

subsection \<open>Files\<close>

text \<open>
  The file system maps a path to the text of the file there; \<open>creatable\<close> tells whether
  \<^verbatim>\<open>open(path, 'w')\<close> succeeds.  Opening for writing leaves an empty file at once, and each
  \<^verbatim>\<open>write\<close> is taken to reach the file.
\<close>

record filesystem =
  files :: "string \<rightharpoonup> string list"
  creatable :: "string \<Rightarrow> bool"

text \<open>\<^verbatim>\<open>os.path.join(a, b)\<close> on POSIX.\<close>

definition path_join :: "string \<Rightarrow> string \<Rightarrow> string" where
  "path_join a b = (if startswith b ''/'' then b
                    else if a = [] \<or> last a = CHR ''/'' then a @ b
                    else a @ ''/'' @ b)"

text \<open>\<^verbatim>\<open>os.path.join(name + '-liquid', resname + tag + str(int(delta * 100)) + '.mol2')\<close>\<close>

definition output_path :: "string \<Rightarrow> string \<Rightarrow> string \<Rightarrow> pyfloat \<Rightarrow> error + string" where
  "output_path name resname tag delta =
     (case int_of_float (fmul delta (Fin 100)) of
        Inl e \<Rightarrow> Inl e
      | Inr k \<Rightarrow> Inr (path_join (name @ ''-liquid'') (resname @ tag @ str_int k @ ''.mol2'')))"

text \<open>The three input paths, named as the local variables of the source are.\<close>

definition mol2_resp1 :: "string \<Rightarrow> string" where
  "mol2_resp1 name = name @ ''-RESP1/resp_output/mol1_conf1.mol2''"

definition mol2_gas :: "string \<Rightarrow> string" where
  "mol2_gas name = name @ ''-RESP2GAS/resp_output/mol1_conf1.mol2''"

definition mol2_liquid :: "string \<Rightarrow> string" where
  "mol2_liquid name = name @ ''-RESP2LIQUID/resp_output/mol1_conf1.mol2''"

definition finish :: "filesystem \<Rightarrow> string \<Rightarrow> string list \<Rightarrow> string \<Rightarrow> pyfloat list
                      \<Rightarrow> (error + int) \<times> filesystem" where
  "finish fs output_file lines resname charges =
     (case rewrite lines resname charges of
        (written, err) \<Rightarrow>
          ((case err of None \<Rightarrow> Inr 0 | Some e \<Rightarrow> Inl e),
           fs\<lparr>files := (files fs)(output_file \<mapsto> written)\<rparr>))"

definition create_charge_file :: "filesystem \<Rightarrow> string \<Rightarrow> string \<Rightarrow> pyfloat \<Rightarrow> string
                                  \<Rightarrow> (error + int) \<times> filesystem" where
  "create_charge_file fs name resname delta type =
     (if type = ''RESP1'' then
        (case files fs (mol2_resp1 name) of
           None \<Rightarrow> (Inl FileNotFoundError, fs)
         | Some lines \<Rightarrow>
            (case output_path name resname ''_R1_'' delta of
               Inl e \<Rightarrow> (Inl e, fs)
             | Inr output_file \<Rightarrow>
                if \<not> creatable fs output_file then (Inl OSError, fs)
                else let fs1 = fs\<lparr>files := (files fs)(output_file \<mapsto> [])\<rparr>
                     in (case read_charges 0 lines of
                           Inl e \<Rightarrow> (Inl e, fs1)
                         | Inr resp1charges \<Rightarrow>
                             finish fs1 output_file lines resname
                               (resp1_charges resp1charges delta))))
      else if type = ''RESP2'' then
        (case output_path name resname ''_R2_'' delta of
           Inl e \<Rightarrow> (Inl e, fs)
         | Inr output_file \<Rightarrow>
            (case files fs (mol2_gas name) of
               None \<Rightarrow> (Inl FileNotFoundError, fs)
             | Some lines \<Rightarrow>
                (case files fs (mol2_liquid name) of
                   None \<Rightarrow> (Inl FileNotFoundError, fs)
                 | Some lines2 \<Rightarrow>
                    if \<not> creatable fs output_file then (Inl OSError, fs)
                    else let fs1 = fs\<lparr>files := (files fs)(output_file \<mapsto> [])\<rparr>
                         in (case read_charges 0 lines of
                               Inl e \<Rightarrow> (Inl e, fs1)
                             | Inr gpc \<Rightarrow>
                                (case read_charges 0 lines2 of
                                   Inl e \<Rightarrow> (Inl e, fs1)
                                 | Inr isc \<Rightarrow>
                                    (case resp2_charges gpc isc delta of
                                       Inl e \<Rightarrow> (Inl e, fs1)
                                     | Inr charges \<Rightarrow>
                                         finish fs1 output_file lines resname charges))))))
      else (Inl SystemExit, fs))"

section \<open>The section scanner, as a state machine\<close>

text \<open>
  Both loops keep the mode \<open>v\<close> (0 before the atom section, 1 inside it, 2 from the bond
  section on) and update it by the same \<^verbatim>\<open>if\<close>/\<^verbatim>\<open>elif\<close> chain.  \<open>scan_step\<close> is that update,
  \<open>scan v ls\<close> the mode after the lines \<open>ls\<close>, and \<open>atom_at v ls i\<close> says that line \<open>i\<close> is
  handled by the third branch, as an atom data line.  \<open>atom_lines\<close> collects these lines
  and \<open>charge_of_line\<close> is what the reading loop does with one of them.
\<close>

definition marker :: "string \<Rightarrow> bool" where
  "marker l = (contains ATOM_MARKER l \<or> contains BOND_MARKER l)"

definition scan_step :: "nat \<Rightarrow> string \<Rightarrow> nat" where
  "scan_step v line = (if contains ATOM_MARKER line then 1
                       else if contains BOND_MARKER line then 2 else v)"

fun scan :: "nat \<Rightarrow> string list \<Rightarrow> nat" where
  "scan v [] = v"
| "scan v (line # rest) = scan (scan_step v line) rest"

definition atom_at :: "nat \<Rightarrow> string list \<Rightarrow> nat \<Rightarrow> bool" where
  "atom_at v ls i = (scan v (take i ls) = 1 \<and> \<not> marker (ls ! i))"

fun atom_lines :: "nat \<Rightarrow> string list \<Rightarrow> string list" where
  "atom_lines v [] = []"
| "atom_lines v (line # rest) =
     (if v = 1 \<and> \<not> marker line then line # atom_lines v rest
      else atom_lines (scan_step v line) rest)"

definition charge_of_line :: "string \<Rightarrow> error + pyfloat" where
  "charge_of_line line =
     (case item (py_split line) 8 of
        Inl e \<Rightarrow> Inl e
      | Inr tok \<Rightarrow> (case float_of_string tok of None \<Rightarrow> Inl ValueError | Some c \<Rightarrow> Inr c))"

text \<open>What the writing loop puts out for line \<open>i\<close>, started in mode \<open>v\<close> with counter
  \<open>num\<close>: the atom line with the next unused charge, or the line itself.\<close>

definition rewritten :: "nat \<Rightarrow> nat \<Rightarrow> string \<Rightarrow> pyfloat list \<Rightarrow> string list \<Rightarrow> nat \<Rightarrow> string" where
  "rewritten v num resname charges ls i =
     (if atom_at v ls i
      then atom_line (py_split (ls ! i)) resname (charges ! (num + length (atom_lines v (take i ls))))
      else ls ! i)"

text \<open>
  In a MOL2 file the first line is a record marker and the second the molecule name, so
  both precede the atom section.  \<open>title_ok\<close> says so in terms of the scanner: the first
  line does not open the atom section, and neither the second line nor its possible
  replacement (the residue name and a line break) holds a section marker.
\<close>

definition title_ok :: "string list \<Rightarrow> string \<Rightarrow> bool" where
  "title_ok lines resname =
     (2 \<le> length lines \<and> \<not> contains ATOM_MARKER (lines ! 0) \<and> \<not> marker (lines ! 1)
      \<and> \<not> marker (resname @ [LF]))"

section \<open>The call as a function of the texts\<close>




section \<open>Example inputs\<close>

text \<open>A two-atom molecule with gas-phase charges 0.5 and -0.5 and implicit-solvent charges
  0.7 and -0.7, and a file system that holds the two files of a RESP2 run and the file of
  a RESP1 run for the compound \<^verbatim>\<open>m\<close>.\<close>

definition ex_gas :: "string list" where
  "ex_gas =
     [''@<TRIPOS>MOLECULE'' @ [LF], ''***'' @ [LF], '' 2 1 1'' @ [LF], ''@<TRIPOS>ATOM'' @ [LF],
      ''  1 C1  0.1234 -1.2345 3.0 C.3 1 XXX 0.5'' @ [LF],
      ''  2 H1  1.1234 -1.2345 3.0 H 1 XXX -0.5 BACKBONE'' @ [LF],
      ''@<TRIPOS>BOND'' @ [LF], '' 1 1 2 1'' @ [LF]]"

definition ex_liquid :: "string list" where
  "ex_liquid =
     [''@<TRIPOS>MOLECULE'' @ [LF], ''liquid'' @ [LF], '' 2 1 1'' @ [LF], ''@<TRIPOS>ATOM'' @ [LF],
      ''  1 C1  0.2 -1.3 3.1 C.3 1 YYY 0.7'' @ [LF],
      ''  2 H1  1.2 -1.3 3.1 H 1 YYY -0.7'' @ [LF],
      ''@<TRIPOS>BOND'' @ [LF], '' 1 1 2 1'' @ [LF]]"

definition ex_fs :: filesystem where
  "ex_fs = \<lparr>files = [mol2_gas ''m'' \<mapsto> ex_gas, mol2_liquid ''m'' \<mapsto> ex_liquid,
                     mol2_resp1 ''m'' \<mapsto> ex_gas],
            creatable = (\<lambda>p. True)\<rparr>"

text \<open>A molecule with \<open>n\<close> atoms of charge 0.25, and two file systems where the gas-phase
  and the implicit-solvent file hold 5 and 6 atoms, and 6 and 5 atoms.\<close>

definition ex_mol :: "nat \<Rightarrow> string list" where
  "ex_mol n =
     [''@<TRIPOS>MOLECULE'' @ [LF], ''mol'' @ [LF], ''@<TRIPOS>ATOM'' @ [LF]]
     @ replicate n (''1 C 0.0 0.0 0.0 C.3 1 XXX 0.25'' @ [LF])
     @ [''@<TRIPOS>BOND'' @ [LF]]"

definition ex_fs56 :: filesystem where
  "ex_fs56 = \<lparr>files = [mol2_gas ''m'' \<mapsto> ex_mol 5, mol2_liquid ''m'' \<mapsto> ex_mol 6],
              creatable = (\<lambda>p. True)\<rparr>"

definition ex_fs65 :: filesystem where
  "ex_fs65 = \<lparr>files = [mol2_gas ''m'' \<mapsto> ex_mol 6, mol2_liquid ''m'' \<mapsto> ex_mol 5],
              creatable = (\<lambda>p. True)\<rparr>"



text \<open>A file with a second atom section after the bond section.\<close>

definition ex_back :: "string list" where
  "ex_back =
     [''@<TRIPOS>ATOM'' @ [LF], ''1 C 0.0 0.0 0.0 C.3 1 XXX 0.25'' @ [LF],
      ''@<TRIPOS>BOND'' @ [LF], ''1 1 2 1'' @ [LF],
      ''@<TRIPOS>ATOM'' @ [LF], ''2 H 1.0 0.0 0.0 H 1 XXX 0.5'' @ [LF]]"

text \<open>The output expected for the example molecule from a RESP1 run and from a RESP2 run,
  both with \<open>delta = 0.5\<close> and residue name \<^verbatim>\<open>MOL\<close>.\<close>

definition ex_out1 :: "string list" where
  "ex_out1 =
     [''@<TRIPOS>MOLECULE'' @ [LF], ''MOL'' @ [LF], '' 2 1 1'' @ [LF], ''@<TRIPOS>ATOM'' @ [LF],
      ''      1 C1          0.1234   -1.2345       3.0 C.3       1  MOL        0.2500 '' @ [LF],
      ''      2 H1          1.1234   -1.2345       3.0 H         1  MOL       -0.2500 '' @ [LF],
      ''@<TRIPOS>BOND'' @ [LF], '' 1 1 2 1'' @ [LF]]"

definition ex_out2 :: "string list" where
  "ex_out2 =
     [''@<TRIPOS>MOLECULE'' @ [LF], ''MOL'' @ [LF], '' 2 1 1'' @ [LF], ''@<TRIPOS>ATOM'' @ [LF],
      ''      1 C1          0.1234   -1.2345       3.0 C.3       1  MOL        0.6000 '' @ [LF],
      ''      2 H1          1.1234   -1.2345       3.0 H         1  MOL       -0.6000 '' @ [LF],
      ''@<TRIPOS>BOND'' @ [LF], '' 1 1 2 1'' @ [LF]]"

(*DEFS-END*)
section \<open>Properties of the loops\<close>

lemma read_charges_step:
  "read_charges v (line # rest) =
     (if v = 1 \<and> \<not> marker line then
        (case charge_of_line line of
           Inl e \<Rightarrow> Inl e
         | Inr c \<Rightarrow> (case read_charges v rest of Inl e \<Rightarrow> Inl e | Inr cs \<Rightarrow> Inr (c # cs)))
      else read_charges (scan_step v line) rest)"
  by (simp add: marker_def scan_step_def charge_of_line_def split: sum.splits option.splits)

lemma read_charges_iff:
  "read_charges v ls = Inr cs \<longleftrightarrow> map charge_of_line (atom_lines v ls) = map Inr cs"
proof (induction ls arbitrary: v cs)
  case Nil
  show ?case by auto
next
  case (Cons line rest)
  show ?case
  proof (cases "v = 1 \<and> \<not> marker line")
    case True
    show ?thesis
    proof (cases cs)
      case Nil
      with True show ?thesis
        by (auto simp: read_charges_step simp del: read_charges.simps split: sum.splits)
    next
      case (Cons c cs')
      with True Cons.IH [of v cs'] show ?thesis
        by (auto simp: read_charges_step simp del: read_charges.simps split: sum.splits)
    qed
  next
    case False
    then show ?thesis
      using Cons.IH [of "scan_step v line" cs]
      by (auto simp: read_charges_step simp del: read_charges.simps)
  qed
qed

lemma resp1_charges_map: "resp1_charges cs delta = map (\<lambda>c. fmul c delta) cs"
  unfolding resp1_charges_def by (rule nth_equalityI) simp_all

lemma mix_loop_ok:
  "\<forall>i \<in> set is. i < length gpc \<Longrightarrow>
   mix_loop gpc isc delta is =
     Inr (map (\<lambda>i. fadd (fmul (gpc ! i) (fsub (Fin 1) delta)) (fmul (isc ! i) delta)) is)"
  by (induction "is") (simp_all add: item_def)

lemma mix_loop_fail:
  "\<exists>i \<in> set is. \<not> i < length gpc \<Longrightarrow> mix_loop gpc isc delta is = Inl IndexError"
  by (induction "is") (auto simp: item_def split: sum.splits)

lemma mix_loop_error: "mix_loop gpc isc delta is = Inl e \<Longrightarrow> e = IndexError"
  by (induction "is" arbitrary: e) (auto simp: item_def split: sum.splits if_splits)


lemma scan_step_plain [simp]: "\<not> marker line \<Longrightarrow> scan_step v line = v"
  by (simp add: marker_def scan_step_def)

lemma atom_at_0 [simp]: "atom_at v (line # rest) 0 = (v = 1 \<and> \<not> marker line)"
  by (simp add: atom_at_def)

lemma atom_at_Suc [simp]: "atom_at v (line # rest) (Suc i) = atom_at (scan_step v line) rest i"
  by (simp add: atom_at_def)

lemma write_lines_step:
  "write_lines v num resname charges (line # rest) =
     (if v = 1 \<and> \<not> marker line then
        (case format_atom (py_split line) resname charges num of
           Inl e \<Rightarrow> ([], Some e)
         | Inr s \<Rightarrow> emit s (write_lines v (num + 1) resname charges rest))
      else emit line (write_lines (scan_step v line) num resname charges rest))"
  by (simp add: marker_def scan_step_def)

lemma rewritten_0:
  "rewritten v num resname charges (line # rest) 0 =
     (if v = 1 \<and> \<not> marker line then atom_line (py_split line) resname (charges ! num) else line)"
  by (simp add: rewritten_def)

lemma rewritten_Suc:
  "rewritten v num resname charges (line # rest) (Suc i) =
     (if v = 1 \<and> \<not> marker line then rewritten v (Suc num) resname charges rest i
      else rewritten (scan_step v line) num resname charges rest i)"
  by (simp add: rewritten_def)

lemma format_atom_Inr:
  "format_atom entry resname charges num = Inr s \<longleftrightarrow>
     7 \<le> length entry \<and> num < length charges \<and> s = atom_line entry resname (charges ! num)"
  by (auto simp: format_atom_def item_def)

lemma format_atom_Inl:
  "format_atom entry resname charges num = Inl e \<longleftrightarrow>
     (length entry < 7 \<or> length charges \<le> num) \<and> e = IndexError"
  by (auto simp: format_atom_def item_def)

lemma write_lines_spec:
  "write_lines v num resname charges ls = (out, r) \<Longrightarrow>
     length out \<le> length ls
     \<and> (\<forall>i < length out. out ! i = rewritten v num resname charges ls i)
     \<and> (case r of
          None \<Rightarrow> length out = length ls
        | Some e \<Rightarrow> e = IndexError \<and> length out < length ls \<and> atom_at v ls (length out)
             \<and> (length (py_split (ls ! length out)) < 7
                 \<or> length charges \<le> num + length (atom_lines v (take (length out) ls))))"
proof (induction ls arbitrary: v num out r)
  case Nil
  then show ?case by simp
next
  case (Cons line rest)
  show ?case
  proof (cases "v = 1 \<and> \<not> marker line")
    case atom: True
    show ?thesis
    proof (cases "format_atom (py_split line) resname charges num")
      case (Inl e)
      with atom Cons.prems have "out = []" "r = Some e"
        by (simp_all add: write_lines_step del: write_lines.simps)
      with Inl atom show ?thesis
        by (simp add: format_atom_Inl)
    next
      case (Inr s)
      obtain out' r' where w: "write_lines v (num + 1) resname charges rest = (out', r')"
        by (cases "write_lines v (num + 1) resname charges rest")
      with atom Inr Cons.prems have o: "out = s # out'" "r = r'"
        by (simp_all add: write_lines_step emit_def del: write_lines.simps)
      from Inr have s: "s = atom_line (py_split line) resname (charges ! num)"
        by (simp add: format_atom_Inr)
      note IH = Cons.IH [OF w]
      have 1: "\<forall>i < length out. out ! i = rewritten v num resname charges (line # rest) i"
      proof (intro allI impI)
        fix i assume "i < length out"
        then show "out ! i = rewritten v num resname charges (line # rest) i"
          using IH o s atom by (cases i) (simp_all add: rewritten_0 rewritten_Suc)
      qed
      have 2: "(case r of
          None \<Rightarrow> length out = length (line # rest)
        | Some e \<Rightarrow> e = IndexError \<and> length out < length (line # rest)
             \<and> atom_at v (line # rest) (length out)
             \<and> (length (py_split ((line # rest) ! length out)) < 7
                 \<or> length charges \<le> num + length (atom_lines v (take (length out) (line # rest)))))"
        using IH o atom by (cases r') simp_all
      from IH o 1 2 show ?thesis by simp
    qed
  next
    case plain: False
    obtain out' r' where w: "write_lines (scan_step v line) num resname charges rest = (out', r')"
      by (cases "write_lines (scan_step v line) num resname charges rest")
    have "write_lines v num resname charges (line # rest) = emit line (out', r')"
      using plain w by (subst write_lines_step) auto
    with Cons.prems have o: "out = line # out'" "r = r'"
      by (simp_all add: emit_def)
    note IH = Cons.IH [OF w]
    have 1: "\<forall>i < length out. out ! i = rewritten v num resname charges (line # rest) i"
    proof (intro allI impI)
      fix i assume "i < length out"
      then show "out ! i = rewritten v num resname charges (line # rest) i"
        using IH o plain by (cases i) (auto simp: rewritten_0 rewritten_Suc)
    qed
    have 2: "(case r of
          None \<Rightarrow> length out = length (line # rest)
        | Some e \<Rightarrow> e = IndexError \<and> length out < length (line # rest)
             \<and> atom_at v (line # rest) (length out)
             \<and> (length (py_split ((line # rest) ! length out)) < 7
                 \<or> length charges \<le> num + length (atom_lines v (take (length out) (line # rest)))))"
      using IH o plain by (cases r') auto
    from IH o 1 2 show ?thesis by simp
  qed
qed


lemma atom_lines_step:
  "atom_lines v (line # rest) =
     (if v = 1 \<and> \<not> marker line then [line] else []) @ atom_lines (scan_step v line) rest"
  by simp

lemma atom_at_nth:
  "i < length ls \<Longrightarrow> atom_at v ls i \<Longrightarrow>
     length (atom_lines v (take i ls)) < length (atom_lines v ls)
     \<and> atom_lines v ls ! length (atom_lines v (take i ls)) = ls ! i"
proof (induction ls arbitrary: v i)
  case Nil
  then show ?case by simp
next
  case (Cons line rest)
  show ?case
  proof (cases i)
    case 0
    with Cons.prems show ?thesis by simp
  next
    case (Suc j)
    with Cons.prems have "j < length rest" "atom_at (scan_step v line) rest j"
      by simp_all
    from Cons.IH [OF this] Suc show ?thesis
      by auto
  qed
qed

lemma atom_lines_tokens:
  "read_charges v ls = Inr cs \<Longrightarrow> l \<in> set (atom_lines v ls) \<Longrightarrow> 9 \<le> length (py_split l)"
proof -
  assume r: "read_charges v ls = Inr cs" and l: "l \<in> set (atom_lines v ls)"
  from r have m: "map charge_of_line (atom_lines v ls) = map Inr cs"
    by (simp add: read_charges_iff)
  from l obtain k where k: "k < length (atom_lines v ls)" "atom_lines v ls ! k = l"
    by (auto simp: in_set_conv_nth)
  from m have len: "length (atom_lines v ls) = length cs"
    by (rule map_eq_imp_length_eq)
  from m have "map charge_of_line (atom_lines v ls) ! k = map Inr cs ! k"
    by simp
  with k len have "charge_of_line l = Inr (cs ! k)"
    by simp
  then show ?thesis
    by (auto simp: charge_of_line_def item_def split: sum.splits if_splits)
qed

lemma read_charges_length:
  assumes "read_charges v ls = Inr cs"
  shows "length cs = length (atom_lines v ls)"
proof -
  from assms have "map charge_of_line (atom_lines v ls) = map Inr cs"
    by (simp add: read_charges_iff)
  then show ?thesis
    by (rule map_eq_imp_length_eq [symmetric])
qed

lemma read_charges_nth:
  assumes "read_charges v ls = Inr cs" and "k < length cs"
  shows "charge_of_line (atom_lines v ls ! k) = Inr (cs ! k)"
proof -
  from assms(1) have m: "map charge_of_line (atom_lines v ls) = map Inr cs"
    by (simp add: read_charges_iff)
  then have len: "length (atom_lines v ls) = length cs"
    by (rule map_eq_imp_length_eq)
  from m have "map charge_of_line (atom_lines v ls) ! k = map Inr cs ! k"
    by simp
  with assms(2) len show ?thesis
    by simp
qed

lemma write_lines_success:
  assumes "\<forall>l \<in> set (atom_lines v ls). 7 \<le> length (py_split l)"
      and "num + length (atom_lines v ls) \<le> length charges"
  shows "snd (write_lines v num resname charges ls) = None"
proof (rule ccontr)
  assume n: "snd (write_lines v num resname charges ls) \<noteq> None"
  obtain out r where w: "write_lines v num resname charges ls = (out, r)"
    by (cases "write_lines v num resname charges ls")
  with n obtain e where r: "r = Some e" by auto
  from write_lines_spec [OF w] r
  have lt: "length out < length ls" and at: "atom_at v ls (length out)"
    and bad: "length (py_split (ls ! length out)) < 7
              \<or> length charges \<le> num + length (atom_lines v (take (length out) ls))"
    by simp_all
  from atom_at_nth [OF lt at]
  have k: "length (atom_lines v (take (length out) ls)) < length (atom_lines v ls)"
    and eq: "atom_lines v ls ! length (atom_lines v (take (length out) ls)) = ls ! length out"
    by simp_all
  from k eq have "ls ! length out \<in> set (atom_lines v ls)"
    by (metis nth_mem)
  with assms(1) have "7 \<le> length (py_split (ls ! length out))" by blast
  with bad k assms(2) show False by linarith
qed

lemma write_lines_short:
  assumes "\<forall>l \<in> set (atom_lines v ls). 7 \<le> length (py_split l)"
      and "length charges < num + length (atom_lines v ls)" and "num \<le> length charges"
  shows "snd (write_lines v num resname charges ls) = Some IndexError"
  using assms
proof (induction ls arbitrary: v num)
  case Nil
  then show ?case by simp
next
  case (Cons line rest)
  show ?case
  proof (cases "v = 1 \<and> \<not> marker line")
    case True
    show ?thesis
    proof (cases "num < length charges")
      case True
      with \<open>v = 1 \<and> \<not> marker line\<close> Cons.prems
      have f: "format_atom (py_split line) resname charges num
                 = Inr (atom_line (py_split line) resname (charges ! num))"
        by (simp add: format_atom_Inr)
      have "snd (write_lines v (num + 1) resname charges rest) = Some IndexError"
        using Cons.prems \<open>v = 1 \<and> \<not> marker line\<close> \<open>num < length charges\<close>
        by (intro Cons.IH) auto
      with f \<open>v = 1 \<and> \<not> marker line\<close> show ?thesis
        by (subst write_lines_step) (simp add: emit_def)
    next
      case False
      then have "format_atom (py_split line) resname charges num = Inl IndexError"
        by (simp add: format_atom_Inl)
      with \<open>v = 1 \<and> \<not> marker line\<close> show ?thesis
        by (subst write_lines_step) simp
    qed
  next
    case False
    have "snd (write_lines (scan_step v line) num resname charges rest) = Some IndexError"
      using Cons.prems False by (intro Cons.IH) auto
    with False show ?thesis
      by (subst write_lines_step) (auto simp: emit_def)
  qed
qed

lemma subst_title_cases:
  "subst_title lines resname =
     (if length lines < 2 then Inl IndexError
      else if is_placeholder (lines ! 1) then Inr (lines[1 := resname @ [LF]]) else Inr lines)"
  by (auto simp: subst_title_def item_def)

lemma title_inert:
  assumes "\<not> contains ATOM_MARKER a" "\<not> marker b"
  shows "atom_lines 0 (a # b # rest) = atom_lines (scan_step 0 a) rest"
    and "atom_at 0 (a # b # rest) (Suc (Suc i)) = atom_at (scan_step 0 a) rest i"
    and "\<not> atom_at 0 (a # b # rest) 0" and "\<not> atom_at 0 (a # b # rest) (Suc 0)"
    and "atom_lines 0 (take (Suc (Suc i)) (a # b # rest)) = atom_lines (scan_step 0 a) (take i rest)"
  using assms by (auto simp: scan_step_def marker_def)


lemma title_ok_subst:
  assumes "title_ok lines resname" and "subst_title lines resname = Inr lines'"
  shows "length lines' = length lines"
    and "atom_at 0 lines' i = atom_at 0 lines i"
    and "atom_lines 0 lines' = atom_lines 0 lines"
    and "atom_lines 0 (take i lines') = atom_lines 0 (take i lines)"
    and "lines' ! i = (if i = 1 \<and> is_placeholder (lines ! 1) then resname @ [LF] else lines ! i)"
    and "atom_at 0 lines i \<Longrightarrow> i \<noteq> 1"
proof -
  from assms(1) obtain a b rest where l: "lines = a # b # rest"
    by (cases lines; cases "tl lines") (auto simp: title_ok_def)
  with assms(1) have a: "\<not> contains ATOM_MARKER a" and b: "\<not> marker b"
    and r: "\<not> marker (resname @ [LF])"
    by (simp_all add: title_ok_def)
  from assms(2) l have l': "lines' = a # (if is_placeholder b then resname @ [LF] else b) # rest"
    by (simp add: subst_title_cases split: if_splits)
  let ?b' = "if is_placeholder b then resname @ [LF] else b"
  from b r have b': "\<not> marker ?b'" by simp
  show "length lines' = length lines" using l l' by simp
  show "atom_at 0 lines' i = atom_at 0 lines i"
  proof (cases i)
    case 0
    then show ?thesis
      unfolding l l' using title_inert(3) [OF a b] title_inert(3) [OF a b'] by blast
  next
    case (Suc j)
    show ?thesis
    proof (cases j)
      case 0
      with Suc show ?thesis
        unfolding l l' using title_inert(4) [OF a b] title_inert(4) [OF a b'] by blast
    next
      case (Suc k)
      with \<open>i = Suc j\<close> show ?thesis
        unfolding l l' by (simp only: title_inert(2) [OF a b] title_inert(2) [OF a b'])
    qed
  qed
  show "atom_lines 0 lines' = atom_lines 0 lines"
    using title_inert(1) [OF a b] title_inert(1) [OF a b'] l l' by simp
  show "atom_lines 0 (take i lines') = atom_lines 0 (take i lines)"
  proof (cases i)
    case 0
    then show ?thesis by simp
  next
    case (Suc j)
    show ?thesis
    proof (cases j)
      case 0
      with Suc a show ?thesis
        unfolding l l' by (simp add: scan_step_def)
    next
      case (Suc k)
      with \<open>i = Suc j\<close> show ?thesis
        unfolding l l' by (simp only: title_inert(5) [OF a b] title_inert(5) [OF a b'])
    qed
  qed
  show "lines' ! i = (if i = 1 \<and> is_placeholder (lines ! 1) then resname @ [LF] else lines ! i)"
    using l l' by (cases i; cases "i - 1") auto
  show "atom_at 0 lines i \<Longrightarrow> i \<noteq> 1"
    using title_inert(4) [OF a b] l by auto
qed

lemma title_ok_Inr:
  "title_ok lines resname \<Longrightarrow> \<exists>lines'. subst_title lines resname = Inr lines'"
  by (auto simp: title_ok_def subst_title_cases)

lemma rewrite_spec:
  assumes t: "title_ok lines resname" and w: "rewrite lines resname charges = (out, None)"
  shows "length out = length lines"
    and "i < length lines \<Longrightarrow> out ! i =
          (if atom_at 0 lines i
           then atom_line (py_split (lines ! i)) resname
                  (charges ! length (atom_lines 0 (take i lines)))
           else if i = 1 \<and> is_placeholder (lines ! 1) then resname @ [LF] else lines ! i)"
proof -
  from title_ok_Inr [OF t] obtain lines' where s: "subst_title lines resname = Inr lines'"
    by blast
  note T = title_ok_subst [OF t s]
  from w s have w': "write_lines 0 0 resname charges lines' = (out, None)"
    by (simp add: rewrite_def)
  from write_lines_spec [OF w']
  have len: "length out = length lines'"
    and nth: "\<forall>i < length out. out ! i = rewritten 0 0 resname charges lines' i"
    by simp_all
  show "length out = length lines" using len T(1) by simp
  show "out ! i =
          (if atom_at 0 lines i
           then atom_line (py_split (lines ! i)) resname
                  (charges ! length (atom_lines 0 (take i lines)))
           else if i = 1 \<and> is_placeholder (lines ! 1) then resname @ [LF] else lines ! i)"
    if "i < length lines"
  proof -
    from that len T(1) nth have "out ! i = rewritten 0 0 resname charges lines' i"
      by simp
    then show ?thesis
      using T(6) [of i] by (auto simp: rewritten_def T(2) T(4) T(5))
  qed
qed

lemma rewrite_success:
  assumes t: "title_ok lines resname"
      and "\<forall>l \<in> set (atom_lines 0 lines). 7 \<le> length (py_split l)"
      and "length (atom_lines 0 lines) \<le> length charges"
  shows "snd (rewrite lines resname charges) = None"
proof -
  from title_ok_Inr [OF t] obtain lines' where s: "subst_title lines resname = Inr lines'"
    by blast
  note T = title_ok_subst [OF t s]
  have "snd (write_lines 0 0 resname charges lines') = None"
    using assms(2,3) by (intro write_lines_success) (simp_all add: T(3))
  with s show ?thesis by (simp add: rewrite_def)
qed

lemma finish_files:
  "finish (fs\<lparr>files := (files fs)(p \<mapsto> [])\<rparr>) p lines resname charges =
     ((case snd (rewrite lines resname charges) of None \<Rightarrow> Inr 0 | Some e \<Rightarrow> Inl e),
      fs\<lparr>files := (files fs)(p \<mapsto> fst (rewrite lines resname charges))\<rparr>)"
  by (simp add: finish_def split: prod.splits)

lemma create_RESP1:
  assumes "files fs (mol2_resp1 name) = Some lines"
      and "output_path name resname ''_R1_'' delta = Inr p"
      and "creatable fs p"
  shows "create_charge_file fs name resname delta ''RESP1'' =
           (case read_charges 0 lines of
              Inl e \<Rightarrow> (Inl e, fs\<lparr>files := (files fs)(p \<mapsto> [])\<rparr>)
            | Inr cs \<Rightarrow> finish (fs\<lparr>files := (files fs)(p \<mapsto> [])\<rparr>) p lines resname
                         (resp1_charges cs delta))"
  using assms by (simp add: create_charge_file_def Let_def)

lemma create_RESP2:
  assumes "files fs (mol2_gas name) = Some lines"
      and "files fs (mol2_liquid name) = Some lines2"
      and "output_path name resname ''_R2_'' delta = Inr p"
      and "creatable fs p"
  shows "create_charge_file fs name resname delta ''RESP2'' =
           (case read_charges 0 lines of
              Inl e \<Rightarrow> (Inl e, fs\<lparr>files := (files fs)(p \<mapsto> [])\<rparr>)
            | Inr gpc \<Rightarrow>
               (case read_charges 0 lines2 of
                  Inl e \<Rightarrow> (Inl e, fs\<lparr>files := (files fs)(p \<mapsto> [])\<rparr>)
                | Inr isc \<Rightarrow>
                   (case resp2_charges gpc isc delta of
                      Inl e \<Rightarrow> (Inl e, fs\<lparr>files := (files fs)(p \<mapsto> [])\<rparr>)
                    | Inr charges \<Rightarrow>
                        finish (fs\<lparr>files := (files fs)(p \<mapsto> [])\<rparr>) p lines resname charges)))"
  using assms by (simp add: create_charge_file_def Let_def)

lemma resp2_charges_eq:
  assumes "length isc \<le> length gpc"
  shows "resp2_charges gpc isc delta =
           Inr (map (\<lambda>i. fadd (fmul (gpc ! i) (fsub (Fin 1) delta)) (fmul (isc ! i) delta))
                  [0..<length isc])"
  unfolding resp2_charges_def using assms by (intro mix_loop_ok) auto

lemma resp2_charges_short:
  assumes "length gpc < length isc"
  shows "resp2_charges gpc isc delta = Inl IndexError"
  unfolding resp2_charges_def
proof (rule mix_loop_fail)
  from assms show "\<exists>i\<in>set [0..<length isc]. \<not> i < length gpc"
    by (intro bexI [of _ "length gpc"]) simp_all
qed


lemma rewrite_short:
  assumes t: "title_ok lines resname"
      and "\<forall>l \<in> set (atom_lines 0 lines). 7 \<le> length (py_split l)"
      and "length charges < length (atom_lines 0 lines)"
  shows "snd (rewrite lines resname charges) = Some IndexError"
proof -
  from title_ok_Inr [OF t] obtain lines' where s: "subst_title lines resname = Inr lines'"
    by blast
  note T = title_ok_subst [OF t s]
  have "snd (write_lines 0 0 resname charges lines') = Some IndexError"
    using assms(2,3) by (intro write_lines_short) (simp_all add: T(3))
  with s show ?thesis by (simp add: rewrite_def)
qed

lemma read_charges_error:
  "read_charges v ls = Inl e \<Longrightarrow> e = IndexError \<or> e = ValueError"
proof (induction ls arbitrary: v)
  case Nil
  then show ?case by simp
next
  case (Cons line rest)
  then show ?case
    by (auto simp: item_def split: if_splits sum.splits option.splits)
qed

lemma rewrite_error:
  "snd (rewrite lines resname charges) = Some e \<Longrightarrow> e = IndexError"
proof -
  assume a: "snd (rewrite lines resname charges) = Some e"
  show ?thesis
  proof (cases "subst_title lines resname")
    case (Inl x)
    with a show ?thesis
      by (auto simp: rewrite_def subst_title_cases split: if_splits)
  next
    case (Inr lines')
    obtain out r where w: "write_lines 0 0 resname charges lines' = (out, r)"
      by (cases "write_lines 0 0 resname charges lines'")
    with a Inr have "r = Some e" by (simp add: rewrite_def)
    with write_lines_spec [OF w] show ?thesis by simp
  qed
qed

lemma output_path_error:
  "output_path name resname tag delta = Inl e \<Longrightarrow> e = OverflowError \<or> e = ValueError"
  by (cases "fmul delta (Fin 100)") (auto simp: output_path_def split: sum.splits)

lemma never_length_mismatch:
  "fst (create_charge_file fs name resname delta type) \<noteq> Inl LengthMismatchError"
proof
  assume a: "fst (create_charge_file fs name resname delta type) = Inl LengthMismatchError"
  have f: "fst (finish fs1 p lines resname charges) \<noteq> Inl LengthMismatchError"
    for fs1 p lines charges
    using rewrite_error [of lines resname charges]
    by (auto simp: finish_def split: prod.splits option.splits)
  from a show False
    using f
    by (auto simp: create_charge_file_def Let_def resp2_charges_def
          split: if_splits option.splits sum.splits
          dest: read_charges_error output_path_error mix_loop_error)
qed




lemma atom_lines_filter:
  "atom_lines v ls = map ((!) ls) (filter (atom_at v ls) [0..<length ls])"
proof (induction ls arbitrary: v)
  case Nil
  show ?case by simp
next
  case (Cons line rest)
  have up: "[0..<length (line # rest)] = 0 # map Suc [0..<length rest]"
    by (simp add: upt_conv_Cons map_Suc_upt del: upt_Suc)
  have sh: "map ((!) (line # rest)) (filter (atom_at v (line # rest)) (map Suc [0..<length rest]))
              = map ((!) rest) (filter (atom_at (scan_step v line) rest) [0..<length rest])"
    by (simp add: filter_map comp_def)
  show ?case
    unfolding up using Cons.IH [of "scan_step v line"] sh
    by (auto simp del: upt_Suc)
qed

section \<open>The claims\<close>

text \<open>
  Claim C4.  In RESP1 mode every output charge is the input charge of the same atom
  multiplied by \<open>delta\<close>, for every float \<open>delta\<close>: nothing restricts it to the interval from
  0 to 1.  The first conjunct is the scaling step on the parsed charges.  The second is the
  whole call, for an input file that exists and parses, whose first two lines precede the
  atom section, and an output path that can be computed and created: the call returns 0,
  leaves one written string per input line in the output file, and the string for each atom
  line carries the charge parsed from that line times \<open>delta\<close>.
\<close>

theorem resp1_scaled_charges:
  assumes inp: "files fs (mol2_resp1 name) = Some lines"
      and parse: "read_charges 0 lines = Inr cs"
      and title: "title_ok lines resname"
      and path: "output_path name resname ''_R1_'' delta = Inr p"
      and creat: "creatable fs p"
  shows "resp1_charges cs delta = map (\<lambda>c. fmul c delta) cs
         \<and> (\<exists>out. create_charge_file fs name resname delta ''RESP1''
                     = (Inr 0, fs\<lparr>files := (files fs)(p \<mapsto> out)\<rparr>)
                \<and> length out = length lines
                \<and> (\<forall>i < length lines. atom_at 0 lines i \<longrightarrow>
                      (\<exists>c. charge_of_line (lines ! i) = Inr c
                          \<and> out ! i = atom_line (py_split (lines ! i)) resname (fmul c delta))))"
proof -
  let ?charges = "resp1_charges cs delta"
  let ?out = "fst (rewrite lines resname ?charges)"
  have len: "length cs = length (atom_lines 0 lines)"
    using parse by (rule read_charges_length)
  have tok: "\<forall>l \<in> set (atom_lines 0 lines). 7 \<le> length (py_split l)"
    using atom_lines_tokens [OF parse] by fastforce
  have ok: "snd (rewrite lines resname ?charges) = None"
    using title tok len by (intro rewrite_success) (simp_all add: resp1_charges_map)
  then have rw: "rewrite lines resname ?charges = (?out, None)"
    by (simp add: prod_eq_iff)
  have run: "create_charge_file fs name resname delta ''RESP1''
               = (Inr 0, fs\<lparr>files := (files fs)(p \<mapsto> ?out)\<rparr>)"
    using create_RESP1 [OF inp path creat] parse ok by (simp add: finish_files)
  have atoms: "\<exists>c. charge_of_line (lines ! i) = Inr c
                 \<and> ?out ! i = atom_line (py_split (lines ! i)) resname (fmul c delta)"
    if i: "i < length lines" and at: "atom_at 0 lines i" for i
  proof -
    let ?k = "length (atom_lines 0 (take i lines))"
    from atom_at_nth [OF i at] have k: "?k < length (atom_lines 0 lines)"
      and eq: "atom_lines 0 lines ! ?k = lines ! i"
      by simp_all
    from read_charges_nth [OF parse, of ?k] k len eq
    have c: "charge_of_line (lines ! i) = Inr (cs ! ?k)"
      by simp
    from k len have "?charges ! ?k = fmul (cs ! ?k) delta"
      by (simp add: resp1_charges_map)
    with rewrite_spec(2) [OF title rw i] at c show ?thesis
      by simp
  qed
  from run rewrite_spec(1) [OF title rw] atoms show ?thesis
    by (auto simp: resp1_charges_map)
qed

text \<open>The theorem at the example file, with \<open>delta = 1.5\<close>, outside the unit interval.\<close>

theorem resp1_scaled_charges_witness:
  "files ex_fs (mol2_resp1 ''m'') = Some ex_gas
   \<and> read_charges 0 ex_gas = Inr [Fin (1 / 2), Fin (- (1 / 2))]
   \<and> title_ok ex_gas ''MOL''
   \<and> output_path ''m'' ''MOL'' ''_R1_'' (Fin (3 / 2)) = Inr ''m-liquid/MOL_R1_150.mol2''
   \<and> creatable ex_fs ''m-liquid/MOL_R1_150.mol2''
   \<and> resp1_charges [Fin (1 / 2), Fin (- (1 / 2))] (Fin (3 / 2)) = [Fin (3 / 4), Fin (- (3 / 4))]
   \<and> (\<exists>out. create_charge_file ex_fs ''m'' ''MOL'' (Fin (3 / 2)) ''RESP1''
                = (Inr 0, ex_fs\<lparr>files := (files ex_fs)(''m-liquid/MOL_R1_150.mol2'' \<mapsto> out)\<rparr>)
           \<and> length out = length ex_gas
           \<and> (\<forall>i < length ex_gas. atom_at 0 ex_gas i \<longrightarrow>
                 (\<exists>c. charge_of_line (ex_gas ! i) = Inr c
                     \<and> out ! i = atom_line (py_split (ex_gas ! i)) ''MOL'' (fmul c (Fin (3 / 2))))))"
proof -
  have h1: "files ex_fs (mol2_resp1 ''m'') = Some ex_gas" by code_simp
  have h2: "read_charges 0 ex_gas = Inr [Fin (1 / 2), Fin (- (1 / 2))]" by code_simp
  have h3: "title_ok ex_gas ''MOL''" by code_simp
  have h4: "output_path ''m'' ''MOL'' ''_R1_'' (Fin (3 / 2)) = Inr ''m-liquid/MOL_R1_150.mol2''"
    by code_simp
  have h5: "creatable ex_fs ''m-liquid/MOL_R1_150.mol2''" by code_simp
  have h6: "map (\<lambda>c. fmul c (Fin (3 / 2))) [Fin (1 / 2), Fin (- (1 / 2))]
              = [Fin (3 / 4), Fin (- (3 / 4))]"
    by code_simp
  from resp1_scaled_charges [OF h1 h2 h3 h4 h5] h1 h2 h3 h4 h5 h6 show ?thesis
    by simp
qed


text \<open>
  Claim C1.  In RESP2 mode, for gas-phase and implicit-solvent charge sequences of equal
  length, the charge with index \<open>i\<close> is \<open>gpc[i] * (1.0 - delta) + isc[i] * delta\<close> in float
  arithmetic, and the call writes it into the line of atom \<open>i\<close>: for input files that exist
  and parse, a gas-phase file whose first two lines precede the atom section, and an output
  path that can be computed and created, the call returns 0 and the string written for each
  atom line carries the mix of the charge parsed from that line and the charge of the atom
  of the same rank in the implicit-solvent file.  The last conjunct is the example of the
  claim: charges 0.5, -0.5 and 0.7, -0.7 with \<open>delta = 0.5\<close> give the floats 0.6 and -0.6
  (\<open>round_double (7 / 10)\<close> is the float that the literal 0.7 denotes).
\<close>

theorem resp2_mixed_charges:
  assumes gas: "files fs (mol2_gas name) = Some lines"
      and liq: "files fs (mol2_liquid name) = Some lines2"
      and pg: "read_charges 0 lines = Inr gpc"
      and pl: "read_charges 0 lines2 = Inr isc"
      and len: "length gpc = length isc"
      and title: "title_ok lines resname"
      and path: "output_path name resname ''_R2_'' delta = Inr p"
      and creat: "creatable fs p"
  shows "\<exists>charges out.
           resp2_charges gpc isc delta = Inr charges
         \<and> length charges = length gpc
         \<and> (\<forall>i < length gpc.
               charges ! i = fadd (fmul (gpc ! i) (fsub (Fin 1) delta)) (fmul (isc ! i) delta))
         \<and> create_charge_file fs name resname delta ''RESP2''
               = (Inr 0, fs\<lparr>files := (files fs)(p \<mapsto> out)\<rparr>)
         \<and> length out = length lines
         \<and> (\<forall>i < length lines. atom_at 0 lines i \<longrightarrow>
               (\<exists>g l. charge_of_line (lines ! i) = Inr g
                    \<and> charge_of_line (atom_lines 0 lines2 ! length (atom_lines 0 (take i lines)))
                        = Inr l
                    \<and> out ! i = atom_line (py_split (lines ! i)) resname
                                  (fadd (fmul g (fsub (Fin 1) delta)) (fmul l delta))))
         \<and> resp2_charges [Fin (1 / 2), Fin (- (1 / 2))]
               [round_double (7 / 10), round_double (- (7 / 10))] (Fin (1 / 2))
             = Inr [round_double (6 / 10), round_double (- (6 / 10))]"
proof -
  let ?mix = "\<lambda>i. fadd (fmul (gpc ! i) (fsub (Fin 1) delta)) (fmul (isc ! i) delta)"
  let ?charges = "map ?mix [0..<length isc]"
  let ?out = "fst (rewrite lines resname ?charges)"
  have mix: "resp2_charges gpc isc delta = Inr ?charges"
    using len by (intro resp2_charges_eq) simp
  have lg: "length gpc = length (atom_lines 0 lines)"
    using pg by (rule read_charges_length)
  have tok: "\<forall>l \<in> set (atom_lines 0 lines). 7 \<le> length (py_split l)"
    using atom_lines_tokens [OF pg] by fastforce
  have ok: "snd (rewrite lines resname ?charges) = None"
    using title tok lg len by (intro rewrite_success) simp_all
  then have rw: "rewrite lines resname ?charges = (?out, None)"
    by (simp add: prod_eq_iff)
  have run: "create_charge_file fs name resname delta ''RESP2''
               = (Inr 0, fs\<lparr>files := (files fs)(p \<mapsto> ?out)\<rparr>)"
    using create_RESP2 [OF gas liq path creat] pg pl mix ok by (simp add: finish_files)
  have atoms: "\<exists>g l. charge_of_line (lines ! i) = Inr g
                 \<and> charge_of_line (atom_lines 0 lines2 ! length (atom_lines 0 (take i lines)))
                     = Inr l
                 \<and> ?out ! i = atom_line (py_split (lines ! i)) resname
                                (fadd (fmul g (fsub (Fin 1) delta)) (fmul l delta))"
    if i: "i < length lines" and at: "atom_at 0 lines i" for i
  proof -
    let ?k = "length (atom_lines 0 (take i lines))"
    from atom_at_nth [OF i at] have k: "?k < length (atom_lines 0 lines)"
      and eq: "atom_lines 0 lines ! ?k = lines ! i"
      by simp_all
    from read_charges_nth [OF pg, of ?k] k lg eq
    have g: "charge_of_line (lines ! i) = Inr (gpc ! ?k)"
      by simp
    from read_charges_nth [OF pl, of ?k] k lg len
    have l: "charge_of_line (atom_lines 0 lines2 ! ?k) = Inr (isc ! ?k)"
      by simp
    from k lg len have "?charges ! ?k = ?mix ?k"
      by simp
    with rewrite_spec(2) [OF title rw i] at g l show ?thesis
      by simp
  qed
  have ex: "resp2_charges [Fin (1 / 2), Fin (- (1 / 2))]
               [round_double (7 / 10), round_double (- (7 / 10))] (Fin (1 / 2))
             = Inr [round_double (6 / 10), round_double (- (6 / 10))]"
    by code_simp
  show ?thesis
  proof (rule exI [of _ ?charges], rule exI [of _ ?out], intro conjI)
    show "resp2_charges gpc isc delta = Inr ?charges"
      by (rule mix)
    show "length ?charges = length gpc"
      using len by simp
    show "\<forall>i < length gpc. ?charges ! i = ?mix i"
      using len by simp
    show "create_charge_file fs name resname delta ''RESP2''
            = (Inr 0, fs\<lparr>files := (files fs)(p \<mapsto> ?out)\<rparr>)"
      by (rule run)
    show "length ?out = length lines"
      by (rule rewrite_spec(1) [OF title rw])
    show "\<forall>i < length lines. atom_at 0 lines i \<longrightarrow>
               (\<exists>g l. charge_of_line (lines ! i) = Inr g
                    \<and> charge_of_line (atom_lines 0 lines2 ! length (atom_lines 0 (take i lines)))
                        = Inr l
                    \<and> ?out ! i = atom_line (py_split (lines ! i)) resname
                                  (fadd (fmul g (fsub (Fin 1) delta)) (fmul l delta)))"
      using atoms by blast
    show "resp2_charges [Fin (1 / 2), Fin (- (1 / 2))]
               [round_double (7 / 10), round_double (- (7 / 10))] (Fin (1 / 2))
             = Inr [round_double (6 / 10), round_double (- (6 / 10))]"
      by (rule ex)
  qed
qed

text \<open>The theorem at the example files: the two rewritten atom lines show \<^verbatim>\<open>0.6000\<close> and
  \<^verbatim>\<open>-0.6000\<close>, and the residue name \<^verbatim>\<open>MOL\<close> in place of \<^verbatim>\<open>XXX\<close>.\<close>

theorem resp2_mixed_charges_witness:
  "files ex_fs (mol2_gas ''m'') = Some ex_gas
   \<and> files ex_fs (mol2_liquid ''m'') = Some ex_liquid
   \<and> read_charges 0 ex_gas = Inr [Fin (1 / 2), Fin (- (1 / 2))]
   \<and> read_charges 0 ex_liquid = Inr [round_double (7 / 10), round_double (- (7 / 10))]
   \<and> title_ok ex_gas ''MOL''
   \<and> output_path ''m'' ''MOL'' ''_R2_'' (Fin (1 / 2)) = Inr ''m-liquid/MOL_R2_50.mol2''
   \<and> creatable ex_fs ''m-liquid/MOL_R2_50.mol2''
   \<and> (\<exists>charges out.
           resp2_charges [Fin (1 / 2), Fin (- (1 / 2))]
             [round_double (7 / 10), round_double (- (7 / 10))] (Fin (1 / 2)) = Inr charges
         \<and> charges = [round_double (6 / 10), round_double (- (6 / 10))]
         \<and> create_charge_file ex_fs ''m'' ''MOL'' (Fin (1 / 2)) ''RESP2''
               = (Inr 0, ex_fs\<lparr>files := (files ex_fs)(''m-liquid/MOL_R2_50.mol2'' \<mapsto> out)\<rparr>)
         \<and> out ! 4 = ''      1 C1          0.1234   -1.2345       3.0 C.3       1  MOL        0.6000 '' @ [LF]
         \<and> out ! 5 = ''      2 H1          1.1234   -1.2345       3.0 H         1  MOL       -0.6000 '' @ [LF])"
proof -
  have h1: "files ex_fs (mol2_gas ''m'') = Some ex_gas" by code_simp
  have h2: "files ex_fs (mol2_liquid ''m'') = Some ex_liquid" by code_simp
  have h3: "read_charges 0 ex_gas = Inr [Fin (1 / 2), Fin (- (1 / 2))]" by code_simp
  have h4: "read_charges 0 ex_liquid = Inr [round_double (7 / 10), round_double (- (7 / 10))]"
    by code_simp
  have h5: "length [Fin (1 / 2), Fin (- (1 / 2))]
              = length [round_double (7 / 10), round_double (- (7 / 10))]"
    by simp
  have h6: "title_ok ex_gas ''MOL''" by code_simp
  have h7: "output_path ''m'' ''MOL'' ''_R2_'' (Fin (1 / 2)) = Inr ''m-liquid/MOL_R2_50.mol2''"
    by code_simp
  have h8: "creatable ex_fs ''m-liquid/MOL_R2_50.mol2''" by code_simp
  from resp2_mixed_charges [OF h1 h2 h3 h4 h5 h6 h7 h8]
  obtain charges out where
    c: "resp2_charges [Fin (1 / 2), Fin (- (1 / 2))]
          [round_double (7 / 10), round_double (- (7 / 10))] (Fin (1 / 2)) = Inr charges"
    and e: "resp2_charges [Fin (1 / 2), Fin (- (1 / 2))]
          [round_double (7 / 10), round_double (- (7 / 10))] (Fin (1 / 2))
            = Inr [round_double (6 / 10), round_double (- (6 / 10))]"
    and r: "create_charge_file ex_fs ''m'' ''MOL'' (Fin (1 / 2)) ''RESP2''
               = (Inr 0, ex_fs\<lparr>files := (files ex_fs)(''m-liquid/MOL_R2_50.mol2'' \<mapsto> out)\<rparr>)"
    and a: "\<forall>i < length ex_gas. atom_at 0 ex_gas i \<longrightarrow>
               (\<exists>g l. charge_of_line (ex_gas ! i) = Inr g
                    \<and> charge_of_line (atom_lines 0 ex_liquid ! length (atom_lines 0 (take i ex_gas)))
                        = Inr l
                    \<and> out ! i = atom_line (py_split (ex_gas ! i)) ''MOL''
                                  (fadd (fmul g (fsub (Fin 1) (Fin (1 / 2)))) (fmul l (Fin (1 / 2)))))"
    by blast
  from c e have ch: "charges = [round_double (6 / 10), round_double (- (6 / 10))]"
    by simp
  have i4: "4 < length ex_gas \<and> atom_at 0 ex_gas 4
            \<and> charge_of_line (ex_gas ! 4) = Inr (Fin (1 / 2))
            \<and> charge_of_line (atom_lines 0 ex_liquid ! length (atom_lines 0 (take 4 ex_gas)))
                = Inr (round_double (7 / 10))
            \<and> atom_line (py_split (ex_gas ! 4)) ''MOL''
                 (fadd (fmul (Fin (1 / 2)) (fsub (Fin 1) (Fin (1 / 2))))
                       (fmul (round_double (7 / 10)) (Fin (1 / 2))))
               = ''      1 C1          0.1234   -1.2345       3.0 C.3       1  MOL        0.6000 '' @ [LF]"
    by code_simp
  have i5: "5 < length ex_gas \<and> atom_at 0 ex_gas 5
            \<and> charge_of_line (ex_gas ! 5) = Inr (Fin (- (1 / 2)))
            \<and> charge_of_line (atom_lines 0 ex_liquid ! length (atom_lines 0 (take 5 ex_gas)))
                = Inr (round_double (- (7 / 10)))
            \<and> atom_line (py_split (ex_gas ! 5)) ''MOL''
                 (fadd (fmul (Fin (- (1 / 2))) (fsub (Fin 1) (Fin (1 / 2))))
                       (fmul (round_double (- (7 / 10))) (Fin (1 / 2))))
               = ''      2 H1          1.1234   -1.2345       3.0 H         1  MOL       -0.6000 '' @ [LF]"
    by code_simp
  from a i4 have o4: "out ! 4 = ''      1 C1          0.1234   -1.2345       3.0 C.3       1  MOL        0.6000 '' @ [LF]"
    by fastforce
  from a i5 have o5: "out ! 5 = ''      2 H1          1.1234   -1.2345       3.0 H         1  MOL       -0.6000 '' @ [LF]"
    by fastforce
  from h1 h2 h3 h4 h6 h7 h8 c ch r o4 o5 show ?thesis
    by blast
qed


text \<open>
  Claim C2 says that RESP2 mixing fails with a LengthMismatchError whenever the two charge
  sequences differ in length, in particular for files with 5 and 6 atoms.  The source has no
  length check and no such error.  With 5 gas-phase and 6 implicit-solvent atoms the mixing
  loop reads \<^verbatim>\<open>gpc[5]\<close> and the call ends with an IndexError.
\<close>

theorem length_mismatch_counterexample:
  "read_charges 0 (ex_mol 5) = Inr (replicate 5 (Fin (1 / 4)))
   \<and> read_charges 0 (ex_mol 6) = Inr (replicate 6 (Fin (1 / 4)))
   \<and> resp2_charges (replicate 5 (Fin (1 / 4))) (replicate 6 (Fin (1 / 4))) (Fin (1 / 2))
       = Inl IndexError
   \<and> fst (create_charge_file ex_fs56 ''m'' ''MOL'' (Fin (1 / 2)) ''RESP2'') = Inl IndexError
   \<and> fst (create_charge_file ex_fs56 ''m'' ''MOL'' (Fin (1 / 2)) ''RESP2'')
       \<noteq> Inl LengthMismatchError"
  by code_simp

text \<open>
  Claim C2 as amended.  When the two parsed sequences differ in length, the call fails with
  an IndexError: in the mixing loop when the gas-phase sequence is the shorter one; when it
  is the longer one the mixing loop succeeds, with one charge for every implicit-solvent
  charge, and the writing loop fails at the first atom line that has no charge.  (The
  gas-phase file has its first two lines before the atom section, and the output file can be
  created.)
\<close>

theorem resp2_length_mismatch:
  assumes gas: "files fs (mol2_gas name) = Some lines"
      and liq: "files fs (mol2_liquid name) = Some lines2"
      and pg: "read_charges 0 lines = Inr gpc"
      and pl: "read_charges 0 lines2 = Inr isc"
      and len: "length gpc \<noteq> length isc"
      and title: "title_ok lines resname"
      and path: "output_path name resname ''_R2_'' delta = Inr p"
      and creat: "creatable fs p"
  shows "fst (create_charge_file fs name resname delta ''RESP2'') = Inl IndexError
         \<and> (length gpc < length isc \<longrightarrow> resp2_charges gpc isc delta = Inl IndexError)
         \<and> (length isc < length gpc \<longrightarrow>
              resp2_charges gpc isc delta
                = Inr (map (\<lambda>i. fadd (fmul (gpc ! i) (fsub (Fin 1) delta)) (fmul (isc ! i) delta))
                        [0..<length isc]))"
proof (cases "length gpc < length isc")
  case True
  then have m: "resp2_charges gpc isc delta = Inl IndexError"
    by (rule resp2_charges_short)
  with create_RESP2 [OF gas liq path creat] pg pl True show ?thesis
    by simp
next
  case False
  with len have lt: "length isc < length gpc" by simp
  let ?charges = "map (\<lambda>i. fadd (fmul (gpc ! i) (fsub (Fin 1) delta)) (fmul (isc ! i) delta))
                    [0..<length isc]"
  from lt have m: "resp2_charges gpc isc delta = Inr ?charges"
    by (intro resp2_charges_eq) simp
  have lg: "length gpc = length (atom_lines 0 lines)"
    using pg by (rule read_charges_length)
  have tok: "\<forall>l \<in> set (atom_lines 0 lines). 7 \<le> length (py_split l)"
    using atom_lines_tokens [OF pg] by fastforce
  have "snd (rewrite lines resname ?charges) = Some IndexError"
    using title tok lt lg by (intro rewrite_short) simp_all
  with create_RESP2 [OF gas liq path creat] pg pl m lt show ?thesis
    by (simp add: finish_files)
qed


text \<open>The amended claim at 6 gas-phase and 5 implicit-solvent atoms.\<close>

theorem resp2_length_mismatch_witness:
  "files ex_fs65 (mol2_gas ''m'') = Some (ex_mol 6)
   \<and> files ex_fs65 (mol2_liquid ''m'') = Some (ex_mol 5)
   \<and> read_charges 0 (ex_mol 6) = Inr (replicate 6 (Fin (1 / 4)))
   \<and> read_charges 0 (ex_mol 5) = Inr (replicate 5 (Fin (1 / 4)))
   \<and> length (replicate 6 (Fin (1 / 4))) \<noteq> length (replicate 5 (Fin (1 / 4)))
   \<and> title_ok (ex_mol 6) ''MOL''
   \<and> output_path ''m'' ''MOL'' ''_R2_'' (Fin (1 / 2)) = Inr ''m-liquid/MOL_R2_50.mol2''
   \<and> creatable ex_fs65 ''m-liquid/MOL_R2_50.mol2''
   \<and> fst (create_charge_file ex_fs65 ''m'' ''MOL'' (Fin (1 / 2)) ''RESP2'') = Inl IndexError"
proof -
  have h1: "files ex_fs65 (mol2_gas ''m'') = Some (ex_mol 6)" by code_simp
  have h2: "files ex_fs65 (mol2_liquid ''m'') = Some (ex_mol 5)" by code_simp
  have h3: "read_charges 0 (ex_mol 6) = Inr (replicate 6 (Fin (1 / 4)))" by code_simp
  have h4: "read_charges 0 (ex_mol 5) = Inr (replicate 5 (Fin (1 / 4)))" by code_simp
  have h5: "length (replicate 6 (Fin (1 / 4))) \<noteq> length (replicate 5 (Fin (1 / 4)))" by simp
  have h6: "title_ok (ex_mol 6) ''MOL''" by code_simp
  have h7: "output_path ''m'' ''MOL'' ''_R2_'' (Fin (1 / 2)) = Inr ''m-liquid/MOL_R2_50.mol2''"
    by code_simp
  have h8: "creatable ex_fs65 ''m-liquid/MOL_R2_50.mol2''" by code_simp
  from resp2_length_mismatch [OF h1 h2 h3 h4 h5 h6 h7 h8] h1 h2 h3 h4 h5 h6 h7 h8
  show ?thesis by blast
qed






text \<open>
  Claim C7 says that the scanner makes no back-transition: once in TRAILER mode it never
  returns to ATOM mode, even if a later line holds the atom marker.  Both loops test the
  atom marker first and set \<open>v = 1\<close> whatever the mode is.  In the example the mode is 2
  after the third line, the fifth line holds the atom marker, the mode is 1 after it, and
  the sixth line is read and rewritten as an atom line.
\<close>

theorem back_transition_counterexample:
  "scan 0 (take 3 ex_back) = 2
   \<and> contains ATOM_MARKER (ex_back ! 4)
   \<and> scan 0 (take 5 ex_back) = 1
   \<and> atom_at 0 ex_back 5
   \<and> read_charges 0 ex_back = Inr [Fin (1 / 4), Fin (1 / 2)]
   \<and> write_lines 0 0 ''MOL'' [Fin (1 / 4), Fin (1 / 2)] ex_back
       = ([''@<TRIPOS>ATOM'' @ [LF],
           ''      1 C              0.0       0.0       0.0 C.3       1  MOL        0.2500 '' @ [LF],
           ''@<TRIPOS>BOND'' @ [LF], ''1 1 2 1'' @ [LF], ''@<TRIPOS>ATOM'' @ [LF],
           ''      2 H              1.0       0.0       0.0 H         1  MOL        0.5000 '' @ [LF]],
          None)"
  by code_simp

text \<open>
  Claim C7 as amended.  A line that holds the atom marker sets the mode to ATOM from every
  mode, TRAILER included; a line that holds the bond marker and not the atom marker sets it
  to TRAILER; any other line leaves the mode as it is, and is treated as an atom data line
  exactly when the mode is ATOM: the reading loop takes its ninth token as a charge and the
  writing loop replaces it by a formatted atom line.  The last two conjuncts say the same of
  whole files: the charges read are those of the lines at the positions \<open>atom_at\<close>, and a
  writing loop that ends without exception has put out \<open>rewritten\<close> for every line.
\<close>

theorem scanner_transitions:
  "(contains ATOM_MARKER line \<longrightarrow>
      scan_step v line = 1
      \<and> read_charges v (line # rest) = read_charges 1 rest
      \<and> write_lines v num resname charges (line # rest)
          = emit line (write_lines 1 num resname charges rest))
   \<and> (\<not> contains ATOM_MARKER line \<and> contains BOND_MARKER line \<longrightarrow>
      scan_step v line = 2
      \<and> read_charges v (line # rest) = read_charges 2 rest
      \<and> write_lines v num resname charges (line # rest)
          = emit line (write_lines 2 num resname charges rest))
   \<and> (\<not> marker line \<longrightarrow>
      scan_step v line = v
      \<and> (v = 1 \<longrightarrow>
            read_charges v (line # rest)
              = (case charge_of_line line of
                   Inl e \<Rightarrow> Inl e
                 | Inr c \<Rightarrow> (case read_charges 1 rest of Inl e \<Rightarrow> Inl e | Inr cs \<Rightarrow> Inr (c # cs)))
          \<and> write_lines v num resname charges (line # rest)
              = (case format_atom (py_split line) resname charges num of
                   Inl e \<Rightarrow> ([], Some e)
                 | Inr s \<Rightarrow> emit s (write_lines 1 (num + 1) resname charges rest)))
      \<and> (v \<noteq> 1 \<longrightarrow>
            read_charges v (line # rest) = read_charges v rest
          \<and> write_lines v num resname charges (line # rest)
              = emit line (write_lines v num resname charges rest)))
   \<and> ((read_charges v ls = Inr cs)
        = (map charge_of_line (map ((!) ls) (filter (atom_at v ls) [0..<length ls])) = map Inr cs))
   \<and> (write_lines v num resname charges ls = (out, None) \<longrightarrow>
        length out = length ls
        \<and> (\<forall>i < length ls. out ! i = rewritten v num resname charges ls i))"
proof (intro conjI impI)
  show "(read_charges v ls = Inr cs)
        = (map charge_of_line (map ((!) ls) (filter (atom_at v ls) [0..<length ls])) = map Inr cs)"
    using read_charges_iff [of v ls cs] by (simp only: atom_lines_filter)
next
  assume w: "write_lines v num resname charges ls = (out, None)"
  from write_lines_spec [OF w] show "length out = length ls"
    by simp
  from write_lines_spec [OF w] show "\<forall>i < length ls. out ! i = rewritten v num resname charges ls i"
    by simp
qed (simp_all add: marker_def scan_step_def charge_of_line_def split: sum.splits option.splits)

text \<open>The amended claim at the lines of the example file.\<close>

theorem scanner_transitions_witness:
  "contains ATOM_MARKER (ex_back ! 4)
   \<and> scan_step 2 (ex_back ! 4) = 1
   \<and> read_charges 2 (ex_back ! 4 # drop 5 ex_back) = read_charges 1 (drop 5 ex_back)
   \<and> \<not> contains ATOM_MARKER (ex_back ! 2) \<and> contains BOND_MARKER (ex_back ! 2)
   \<and> scan_step 1 (ex_back ! 2) = 2
   \<and> \<not> marker (ex_back ! 5)
   \<and> read_charges 1 [ex_back ! 5] = Inr [Fin (1 / 2)]
   \<and> read_charges 2 [ex_back ! 5] = Inr []
   \<and> read_charges 0 ex_back = Inr [Fin (1 / 4), Fin (1 / 2)]
   \<and> map charge_of_line (map ((!) ex_back) (filter (atom_at 0 ex_back) [0..<length ex_back]))
       = map Inr [Fin (1 / 4), Fin (1 / 2)]"
proof -
  have a: "contains ATOM_MARKER (ex_back ! 4)" by code_simp
  have b: "\<not> contains ATOM_MARKER (ex_back ! 2) \<and> contains BOND_MARKER (ex_back ! 2)"
    by code_simp
  have c: "\<not> marker (ex_back ! 5)" by code_simp
  have r: "read_charges 0 ex_back = Inr [Fin (1 / 4), Fin (1 / 2)]" by code_simp
  have d: "charge_of_line (ex_back ! 5) = Inr (Fin (1 / 2))" by code_simp
  note T4 = scanner_transitions [of "ex_back ! 4" 2 "drop 5 ex_back"]
  note T2 = scanner_transitions [of "ex_back ! 2" 1]
  note T5 = scanner_transitions [of "ex_back ! 5" 1 "[]"]
  note T5' = scanner_transitions [of "ex_back ! 5" 2 "[]"]
  note T0 = scanner_transitions [of _ 0 _ _ _ _ ex_back "[Fin (1 / 4), Fin (1 / 2)]"]
  from T4 a have 1: "scan_step 2 (ex_back ! 4) = 1
     \<and> read_charges 2 (ex_back ! 4 # drop 5 ex_back) = read_charges 1 (drop 5 ex_back)"
    by blast
  from T2 b have 2: "scan_step 1 (ex_back ! 2) = 2"
    by blast
  from T5 c have "read_charges 1 [ex_back ! 5]
      = (case charge_of_line (ex_back ! 5) of
           Inl e \<Rightarrow> Inl e
         | Inr c \<Rightarrow> (case read_charges 1 [] of Inl e \<Rightarrow> Inl e | Inr cs \<Rightarrow> Inr (c # cs)))"
    by blast
  with d have 3: "read_charges 1 [ex_back ! 5] = Inr [Fin (1 / 2)]"
    by simp
  from T5' c have "read_charges 2 [ex_back ! 5] = read_charges 2 []"
    by simp
  then have 4: "read_charges 2 [ex_back ! 5] = Inr []"
    by simp
  from T0 r have 5: "map charge_of_line (map ((!) ex_back) (filter (atom_at 0 ex_back) [0..<length ex_back]))
       = map Inr [Fin (1 / 4), Fin (1 / 2)]"
    by blast
  from a b c r 1 2 3 4 5 show ?thesis
    by blast
qed


end
